theory Spec2Isabelle
  imports Main "HOL-Library.Multiset"
begin

section \<open>The blog\_posts table\<close>

text \<open>
  The handlers of \<^verbatim>\<open>src/routes/blog.js\<close> are request-to-SQL glue over one table,
  \<^verbatim>\<open>blog_posts\<close>. A row is a record with the columns the statements name; a column
  that a handler may bind to an absent request field holds an option (\<open>None\<close> is SQL
  NULL). The table is the list of its rows in insertion order. The table's declaration
  (\<^verbatim>\<open>db/init.js\<close>) is not among the sources, so no key, default or trigger of the
  table is modelled: a statement writes the columns it lists and nothing else.
\<close>

type_synonym timestamp = int

record post =
  post_id :: string
  title :: string
  slug :: string
  content :: string
  category :: string
  meta_title :: "string option"
  meta_description :: "string option"
  post_keywords :: "string option"
  featured_image :: "string option"
  status :: "string option"
  author :: "string option"
  created_at :: timestamp
  updated_at :: timestamp
  is_featured :: "bool option"
  is_trending :: "bool option"
  featured_order :: "int option"
  trending_order :: "int option"

type_synonym store = "post list"

text \<open>\<^verbatim>\<open>SELECT * FROM blog_posts WHERE w\<close>\<close>
definition sql_select :: "(post \<Rightarrow> bool) \<Rightarrow> store \<Rightarrow> post list" where
  "sql_select w rows = filter w rows"

text \<open>\<^verbatim>\<open>INSERT INTO blog_posts (...) VALUES (...)\<close>\<close>
definition sql_insert :: "post \<Rightarrow> store \<Rightarrow> store" where
  "sql_insert r rows = rows @ [r]"

text \<open>\<^verbatim>\<open>UPDATE blog_posts SET ... WHERE w\<close>: every row matching \<open>w\<close> is rewritten by \<open>f\<close>.\<close>
definition sql_update :: "(post \<Rightarrow> bool) \<Rightarrow> (post \<Rightarrow> post) \<Rightarrow> store \<Rightarrow> store" where
  "sql_update w f rows = map (\<lambda>r. if w r then f r else r) rows"

text \<open>\<^verbatim>\<open>DELETE FROM blog_posts WHERE w\<close>\<close>
definition sql_delete :: "(post \<Rightarrow> bool) \<Rightarrow> store \<Rightarrow> store" where
  "sql_delete w rows = filter (\<lambda>r. \<not> w r) rows"

text \<open>
  \<^verbatim>\<open>ORDER BY\<close> as a stable insertion sort under a comparator. Where two rows compare
  equal the database may return them in either order; the model keeps table order.
\<close>
fun insert_by :: "('a \<Rightarrow> 'a \<Rightarrow> bool) \<Rightarrow> 'a \<Rightarrow> 'a list \<Rightarrow> 'a list" where
  "insert_by le x [] = [x]"
| "insert_by le x (y # ys) = (if le x y then x # y # ys else y # insert_by le x ys)"

definition order_by :: "('a \<Rightarrow> 'a \<Rightarrow> bool) \<Rightarrow> 'a list \<Rightarrow> 'a list" where
  "order_by le rows = foldr (insert_by le) rows []"

text \<open>
  \<^verbatim>\<open>ORDER BY col ASC\<close> on a nullable integer column. The statement does not say where
  NULL goes; that is the database's choice, the parameter \<open>nulls_first\<close>.
\<close>
fun asc_before :: "bool \<Rightarrow> int option \<Rightarrow> int option \<Rightarrow> bool" where
  "asc_before nulls_first None (Some y) = nulls_first"
| "asc_before nulls_first (Some x) None = (\<not> nulls_first)"
| "asc_before nulls_first (Some x) (Some y) = (x < y)"
| "asc_before nulls_first None None = False"

text \<open>\<^verbatim>\<open>ORDER BY col ASC, created_at DESC\<close>\<close>
definition by_order_then_recent ::
  "bool \<Rightarrow> (post \<Rightarrow> int option) \<Rightarrow> post \<Rightarrow> post \<Rightarrow> bool" where
  "by_order_then_recent nulls_first col p q =
     (asc_before nulls_first (col p) (col q) \<or> (col p = col q \<and> created_at q \<le> created_at p))"

text \<open>\<^verbatim>\<open>ORDER BY created_at DESC\<close>\<close>
definition by_recent :: "post \<Rightarrow> post \<Rightarrow> bool" where
  "by_recent p q = (created_at q \<le> created_at p)"

section \<open>Slugs\<close>

text \<open>
  \<^verbatim>\<open>title.toLowerCase().replace(/[^a-z0-9]+/g, '-').replace(/(^-|-$)/g, '')\<close>
  (blog.js 98--101 and 219--222). A JavaScript string is held as its UTF-8 bytes: an
  ASCII character is one byte below 128, and every other character is a run of bytes
  from 128 up, all outside \<open>[a-z0-9]\<close>, so the two \<^verbatim>\<open>replace\<close> steps give on
  bytes what they give on code units.
\<close>

definition ascii :: "char \<Rightarrow> bool" where
  "ascii c = ((of_char c :: nat) < 128)"

definition lower_char :: "char \<Rightarrow> char" where
  "lower_char c =
     (let n = (of_char c :: nat) in if 65 \<le> n \<and> n \<le> 90 then char_of (n + 32) else c)"

text \<open>Case folding of the ASCII letters, as a pattern's \<^verbatim>\<open>i\<close> flag and the router apply it.\<close>
definition ascii_fold :: "string \<Rightarrow> string" where
  "ascii_fold s = map lower_char s"

text \<open>
  \<^verbatim>\<open>String.prototype.toLowerCase\<close>. On a string of ASCII characters it maps
  \<open>A\<close>--\<open>Z\<close> to \<open>a\<close>--\<open>z\<close> and nothing else. On any other string it is the
  built-in's Unicode mapping, which is not part of the repository and can produce ASCII
  letters from other characters (the Kelvin sign gives \<open>k\<close>): the parameter
  \<open>unicode_lower\<close>.
\<close>
definition toLowerCase :: "(string \<Rightarrow> string) \<Rightarrow> string \<Rightarrow> string" where
  "toLowerCase unicode_lower s = (if list_all ascii s then map lower_char s else unicode_lower s)"

definition slug_char :: "char \<Rightarrow> bool" where
  "slug_char c =
     (let n = (of_char c :: nat) in (97 \<le> n \<and> n \<le> 122) \<or> (48 \<le> n \<and> n \<le> 57))"

text \<open>\<^verbatim>\<open>.replace(/[^a-z0-9]+/g, '-')\<close>: each maximal run of other characters becomes one hyphen.\<close>
function hyphenate :: "string \<Rightarrow> string" where
  "hyphenate [] = []"
| "hyphenate (c # cs) =
     (if slug_char c then c # hyphenate cs
      else CHR ''-'' # hyphenate (dropWhile (\<lambda>d. \<not> slug_char d) cs))"
  by pat_completeness auto
termination
  by (relation "measure length") (auto simp: le_imp_less_Suc length_dropWhile_le)

text \<open>\<^verbatim>\<open>.replace(/(^-|-$)/g, '')\<close>: a hyphen at the start and a hyphen at the end are removed.\<close>
definition trim_hyphens :: "string \<Rightarrow> string" where
  "trim_hyphens s =
     (let s1 = (case s of [] \<Rightarrow> [] | c # cs \<Rightarrow> if c = CHR ''-'' then cs else s)
      in if s1 \<noteq> [] \<and> last s1 = CHR ''-'' then butlast s1 else s1)"

definition slugify :: "(string \<Rightarrow> string) \<Rightarrow> string \<Rightarrow> string" where
  "slugify unicode_lower t = trim_hyphens (hyphenate (toLowerCase unicode_lower t))"

section \<open>Requests and responses\<close>

text \<open>
  The responses a handler sends, by status and message:
  403 \<open>Unauthorized\<close>; 400 \<open>Title, content and category are required\<close>
  (\<open>ValidationError\<close>); 400 \<open>A post with this title already exists\<close>
  (\<open>DuplicateSlug\<close>); 404 \<open>Blog post not found\<close> (\<open>NotFound\<close>); 500 from the
  \<^verbatim>\<open>catch\<close> block (\<open>StorageError\<close>). Failures of the database connection itself
  are outside the model.
\<close>
datatype error = Unauthorized | ValidationError | DuplicateSlug | NotFound | StorageError

text \<open>
  \<^verbatim>\<open>req.headers['admin-access'] === process.env.ADMIN_PASSPHRASE\<close>: both sides may be
  undefined (\<open>None\<close>), and then they are equal.
\<close>
definition checkAdminPassphrase :: "string option \<Rightarrow> string option \<Rightarrow> bool" where
  "checkAdminPassphrase passphrase admin_access = (admin_access = passphrase)"

text \<open>
  A body field that has a destructuring default: the default applies when the field is
  absent (\<^verbatim>\<open>undefined\<close>), not when it is an explicit \<^verbatim>\<open>null\<close>.
\<close>
datatype 'a field = Absent | Null | Given 'a

definition with_default :: "'a \<Rightarrow> 'a field \<Rightarrow> 'a option" where
  "with_default d f = (case f of Absent \<Rightarrow> Some d | Null \<Rightarrow> None | Given v \<Rightarrow> Some v)"

text \<open>
  The body of \<^verbatim>\<open>POST /posts\<close>. The three required fields are strings, an absent one
  being the empty string (both are falsy and rejected before any use). A field without a
  default, or with the default \<^verbatim>\<open>null\<close>, is \<open>None\<close> when absent or null: both are
  bound as SQL NULL.
\<close>
record create_body =
  cb_title :: string
  cb_content :: string
  cb_category :: string
  cb_meta_title :: "string option"
  cb_meta_description :: "string option"
  cb_keywords :: "string option"
  cb_featured_image :: "string option"
  cb_status :: "string field"
  cb_author :: "string option"
  cb_is_featured :: "bool field"
  cb_is_trending :: "bool field"
  cb_featured_order :: "int option"
  cb_trending_order :: "int option"

text \<open>The body of \<^verbatim>\<open>PUT /posts/:id\<close>.\<close>
record update_body =
  ub_title :: string
  ub_content :: string
  ub_category :: string
  ub_meta_title :: "string option"
  ub_meta_description :: "string option"
  ub_keywords :: "string option"
  ub_featured_image :: "string option"
  ub_status :: "string option"
  ub_author :: "string option"

text \<open>The body of \<^verbatim>\<open>PATCH /posts/:id/status\<close>.\<close>
record flags_body =
  fb_is_featured :: "bool option"
  fb_is_trending :: "bool option"
  fb_featured_order :: "int option"
  fb_trending_order :: "int option"

text \<open>One element of \<^verbatim>\<open>posts\<close> in the body of \<^verbatim>\<open>POST /posts/reorder\<close>.\<close>
record reorder_entry =
  entry_id :: string
  entry_order :: "int option"

section \<open>The handlers\<close>

text \<open>
  Each handler takes the configured passphrase, the request's \<^verbatim>\<open>admin-access\<close>
  header, its parameters and the table, and returns its response and the table after it.
  \<open>sanitizeContent\<close> (one call into the DOMPurify package), \<open>NOW()\<close>,
  \<open>uuidv4()\<close> and the built-in \<open>unicode_lower\<close> are parameters.
\<close>

text \<open>\<^verbatim>\<open>router.post('/posts')\<close>, blog.js 71--141.\<close>
definition createPost ::
  "(string \<Rightarrow> string) \<Rightarrow> (string \<Rightarrow> string) \<Rightarrow> timestamp \<Rightarrow> string \<Rightarrow>
   string option \<Rightarrow> string option \<Rightarrow> create_body \<Rightarrow> store \<Rightarrow>
   (error + string \<times> string) \<times> store" where
  "createPost unicode_lower sanitizeContent now uuid passphrase hdr body rows =
     (if \<not> checkAdminPassphrase passphrase hdr then (Inl Unauthorized, rows)
      else if cb_title body = [] \<or> cb_content body = [] \<or> cb_category body = []
      then (Inl ValidationError, rows)
      else
        let sl = slugify unicode_lower (cb_title body);
            existingSlugs = sql_select (\<lambda>r. slug r = sl) rows
        in if existingSlugs \<noteq> [] then (Inl DuplicateSlug, rows)
           else
             let sanitizedContent = sanitizeContent (cb_content body)
             in (Inr (uuid, sl),
                 sql_insert
                   \<lparr> post_id = uuid, title = cb_title body, slug = sl,
                     content = sanitizedContent, category = cb_category body,
                     meta_title = cb_meta_title body,
                     meta_description = cb_meta_description body,
                     post_keywords = cb_keywords body,
                     featured_image = cb_featured_image body,
                     status = with_default ''draft'' (cb_status body),
                     author = cb_author body,
                     created_at = now, updated_at = now,
                     is_featured = with_default False (cb_is_featured body),
                     is_trending = with_default False (cb_is_trending body),
                     featured_order = cb_featured_order body,
                     trending_order = cb_trending_order body \<rparr>
                   rows))"

text \<open>\<^verbatim>\<open>router.put('/posts/:id')\<close>, blog.js 185--268.\<close>
definition updatePost ::
  "(string \<Rightarrow> string) \<Rightarrow> (string \<Rightarrow> string) \<Rightarrow> timestamp \<Rightarrow>
   string option \<Rightarrow> string option \<Rightarrow> string \<Rightarrow> update_body \<Rightarrow> store \<Rightarrow>
   (error + string) \<times> store" where
  "updatePost unicode_lower sanitizeContent now passphrase hdr pid body rows =
     (if \<not> checkAdminPassphrase passphrase hdr then (Inl Unauthorized, rows)
      else if ub_title body = [] \<or> ub_content body = [] \<or> ub_category body = []
      then (Inl ValidationError, rows)
      else if sql_select (\<lambda>r. post_id r = pid) rows = [] then (Inl NotFound, rows)
      else
        let sl = slugify unicode_lower (ub_title body);
            existingSlugs = sql_select (\<lambda>r. slug r = sl \<and> post_id r \<noteq> pid) rows
        in if existingSlugs \<noteq> [] then (Inl DuplicateSlug, rows)
           else
             let sanitizedContent = sanitizeContent (ub_content body)
             in (Inr sl,
                 sql_update (\<lambda>r. post_id r = pid)
                   (\<lambda>r. r\<lparr> title := ub_title body, slug := sl, content := sanitizedContent,
                           category := ub_category body,
                           meta_title := ub_meta_title body,
                           meta_description := ub_meta_description body,
                           post_keywords := ub_keywords body,
                           featured_image := ub_featured_image body,
                           status := ub_status body, author := ub_author body,
                           updated_at := now \<rparr>)
                   rows))"

text \<open>\<^verbatim>\<open>router.delete('/posts/:id')\<close>, blog.js 271--300.\<close>
definition deletePost ::
  "string option \<Rightarrow> string option \<Rightarrow> string \<Rightarrow> store \<Rightarrow> (error + unit) \<times> store" where
  "deletePost passphrase hdr pid rows =
     (if \<not> checkAdminPassphrase passphrase hdr then (Inl Unauthorized, rows)
      else if sql_select (\<lambda>r. post_id r = pid) rows = [] then (Inl NotFound, rows)
      else (Inr (), sql_delete (\<lambda>r. post_id r = pid) rows))"

text \<open>\<^verbatim>\<open>router.patch('/posts/:id/status')\<close>, blog.js 321--344 (the spec's setFlags).\<close>
definition setFlags ::
  "string option \<Rightarrow> string option \<Rightarrow> string \<Rightarrow> flags_body \<Rightarrow> store \<Rightarrow> (error + unit) \<times> store" where
  "setFlags passphrase hdr pid body rows =
     (if \<not> checkAdminPassphrase passphrase hdr then (Inl Unauthorized, rows)
      else (Inr (),
            sql_update (\<lambda>r. post_id r = pid)
              (\<lambda>r. r\<lparr> is_featured := fb_is_featured body, is_trending := fb_is_trending body,
                      featured_order := fb_featured_order body,
                      trending_order := fb_trending_order body \<rparr>)
              rows))"

text \<open>\<^verbatim>\<open>UPDATE blog_posts SET ${orderField} = ? WHERE id = ?\<close> with the column named by a string.\<close>
definition set_order_column :: "string \<Rightarrow> int option \<Rightarrow> post \<Rightarrow> post" where
  "set_order_column orderField v r =
     (if orderField = ''trending_order'' then r\<lparr> trending_order := v \<rparr>
      else if orderField = ''featured_order'' then r\<lparr> featured_order := v \<rparr>
      else r)"

text \<open>The \<^verbatim>\<open>for (const post of posts)\<close> loop of the reorder handler: one statement per entry, in order.\<close>
fun reorder_loop :: "string \<Rightarrow> reorder_entry list \<Rightarrow> store \<Rightarrow> store" where
  "reorder_loop orderField [] rows = rows"
| "reorder_loop orderField (e # es) rows =
     reorder_loop orderField es
       (sql_update (\<lambda>r. post_id r = entry_id e) (set_order_column orderField (entry_order e)) rows)"

text \<open>
  \<^verbatim>\<open>router.post('/posts/reorder')\<close>, blog.js 347--371. \<open>posts\<close> and \<open>type\<close> come from
  the body; with no \<open>posts\<close> the loop header throws and the \<^verbatim>\<open>catch\<close> block
  answers 500.
\<close>
definition reorderPosts ::
  "string option \<Rightarrow> string option \<Rightarrow> reorder_entry list option \<Rightarrow> string option \<Rightarrow> store \<Rightarrow>
   (error + unit) \<times> store" where
  "reorderPosts passphrase hdr posts ty rows =
     (if \<not> checkAdminPassphrase passphrase hdr then (Inl Unauthorized, rows)
      else
        let orderField = (if ty = Some ''trending'' then ''trending_order'' else ''featured_order'')
        in case posts of
             None \<Rightarrow> (Inl StorageError, rows)
           | Some es \<Rightarrow> (Inr (), reorder_loop orderField es rows))"

text \<open>\<^verbatim>\<open>router.get('/posts')\<close>, blog.js 144--159.\<close>
definition getPosts :: "string option \<Rightarrow> string option \<Rightarrow> store \<Rightarrow> post list" where
  "getPosts passphrase hdr rows =
     order_by by_recent
       (if \<not> checkAdminPassphrase passphrase hdr
        then sql_select (\<lambda>r. status r = Some ''published'') rows
        else rows)"

text \<open>\<^verbatim>\<open>router.get('/posts/:slug')\<close>, blog.js 162--182.\<close>
definition getPostBySlug ::
  "string option \<Rightarrow> string option \<Rightarrow> string \<Rightarrow> store \<Rightarrow> error + post" where
  "getPostBySlug passphrase hdr sl rows =
     (case sql_select
             (\<lambda>r. slug r = sl \<and>
                  (if \<not> checkAdminPassphrase passphrase hdr then status r = Some ''published''
                   else True))
             rows of
        [] \<Rightarrow> Inl NotFound
      | p # _ \<Rightarrow> Inr p)"

text \<open>
  \<^verbatim>\<open>router.get('/categories')\<close>, blog.js 303--318. \<open>collate\<close> is the order of the
  category column's collation, which the table's declaration fixes.
\<close>
definition getCategories ::
  "(string \<Rightarrow> string \<Rightarrow> bool) \<Rightarrow> string option \<Rightarrow> string option \<Rightarrow> store \<Rightarrow> string list" where
  "getCategories collate passphrase hdr rows =
     order_by collate
       (remdups (map category
          (if \<not> checkAdminPassphrase passphrase hdr
           then sql_select (\<lambda>r. status r = Some ''published'') rows
           else rows)))"

text \<open>\<^verbatim>\<open>router.get('/posts/featured')\<close>, blog.js 374--389. The handler reads no header.\<close>
definition getFeatured :: "bool \<Rightarrow> store \<Rightarrow> post list" where
  "getFeatured nulls_first rows =
     order_by (by_order_then_recent nulls_first featured_order)
       (sql_select (\<lambda>r. is_featured r = Some True) rows)"

text \<open>\<^verbatim>\<open>router.get('/posts/trending')\<close>, blog.js 392--407. The handler reads no header.\<close>
definition getTrending :: "bool \<Rightarrow> store \<Rightarrow> post list" where
  "getTrending nulls_first rows =
     order_by (by_order_then_recent nulls_first trending_order)
       (sql_select (\<lambda>r. is_trending r = Some True) rows)"

section \<open>The router\<close>

text \<open>
  The handlers are registered on one \<^verbatim>\<open>express.Router()\<close>, in the order of the file
  (the application mounts it under \<^verbatim>\<open>/blog\<close>; paths here are relative to that).
  A request goes to the first route whose method and path pattern match it, and every
  handler here answers without passing the request on. A path is the list of its
  segments; a literal segment of a pattern matches without regard to case (the router's
  default), and a parameter (\<^verbatim>\<open>:slug\<close>, \<^verbatim>\<open>:id\<close>) matches any one segment.
\<close>

datatype verb = GET | POST | PUT | DELETE | PATCH

datatype segment = Lit string | Param

datatype handler =
  CreatePost | GetPosts | GetPostBySlug | UpdatePost | DeletePost | GetCategories |
  SetFlags | ReorderPosts | GetFeatured | GetTrending

text \<open>The routes of blog.js in the order of registration (lines 71, 144, 162, 185, 271, 303, 321, 347, 374, 392).\<close>
definition routes :: "(verb \<times> segment list \<times> handler) list" where
  "routes =
     [ (POST, [Lit ''posts''], CreatePost),
       (GET, [Lit ''posts''], GetPosts),
       (GET, [Lit ''posts'', Param], GetPostBySlug),
       (PUT, [Lit ''posts'', Param], UpdatePost),
       (DELETE, [Lit ''posts'', Param], DeletePost),
       (GET, [Lit ''categories''], GetCategories),
       (PATCH, [Lit ''posts'', Param, Lit ''status''], SetFlags),
       (POST, [Lit ''posts'', Lit ''reorder''], ReorderPosts),
       (GET, [Lit ''posts'', Lit ''featured''], GetFeatured),
       (GET, [Lit ''posts'', Lit ''trending''], GetTrending) ]"

text \<open>A pattern against a path: the values of the parameters when it matches.\<close>
fun match_path :: "segment list \<Rightarrow> string list \<Rightarrow> string list option" where
  "match_path [] [] = Some []"
| "match_path (Lit l # ps) (x # xs) = (if ascii_fold x = l then match_path ps xs else None)"
| "match_path (Param # ps) (x # xs) =
     (case match_path ps xs of None \<Rightarrow> None | Some vs \<Rightarrow> Some (x # vs))"
| "match_path _ _ = None"

fun first_route ::
  "(verb \<times> segment list \<times> handler) list \<Rightarrow> verb \<Rightarrow> string list \<Rightarrow>
   (handler \<times> string list) option" where
  "first_route [] v path = None"
| "first_route ((v', pat, h) # rs) v path =
     (if v' = v
      then (case match_path pat path of
              Some vs \<Rightarrow> Some (h, vs)
            | None \<Rightarrow> first_route rs v path)
      else first_route rs v path)"

text \<open>What a GET request is answered with.\<close>
datatype reply =
  Listing "post list" | Single post | Names "string list" | Failed error | NoRoute

text \<open>A GET request through the router.\<close>
definition handle_get ::
  "bool \<Rightarrow> (string \<Rightarrow> string \<Rightarrow> bool) \<Rightarrow> string option \<Rightarrow> string option \<Rightarrow>
   string list \<Rightarrow> store \<Rightarrow> reply" where
  "handle_get nulls_first collate passphrase hdr path rows =
     (case first_route routes GET path of
        Some (GetPosts, vs) \<Rightarrow> Listing (getPosts passphrase hdr rows)
      | Some (GetPostBySlug, vs) \<Rightarrow>
          (case vs of
             [sl] \<Rightarrow>
               (case getPostBySlug passphrase hdr sl rows of
                  Inl e \<Rightarrow> Failed e
                | Inr p \<Rightarrow> Single p)
           | _ \<Rightarrow> NoRoute)
      | Some (GetCategories, vs) \<Rightarrow> Names (getCategories collate passphrase hdr rows)
      | Some (GetFeatured, vs) \<Rightarrow> Listing (getFeatured nulls_first rows)
      | Some (GetTrending, vs) \<Rightarrow> Listing (getTrending nulls_first rows)
      | _ \<Rightarrow> NoRoute)"

text \<open>The posts a reply shows.\<close>
fun shown :: "reply \<Rightarrow> post list" where
  "shown (Listing ps) = ps"
| "shown (Single p) = [p]"
| "shown _ = []"

section \<open>The sanitizer's configuration\<close>

text \<open>
  \<open>sanitizeContent\<close> (blog.js 30--63) is a single call
  \<^verbatim>\<open>DOMPurify.sanitize(content, options)\<close> into the dompurify package, whose code is
  not part of the repository. What the repository itself supplies is modelled here: the
  embed validator, the rewrite rule stored under the option key \<^verbatim>\<open>transformTags\<close>,
  and the URI pattern handed to \<^verbatim>\<open>DOMPurify.setConfig\<close>.
\<close>

datatype js_error = TypeError

fun strip_prefix :: "string \<Rightarrow> string \<Rightarrow> string option" where
  "strip_prefix [] s = Some s"
| "strip_prefix (p # ps) [] = None"
| "strip_prefix (p # ps) (c # cs) = (if p = c then strip_prefix ps cs else None)"

text \<open>An optional group \<^verbatim>\<open>(p)?\<close>: taken when present.\<close>
definition optional_prefix :: "string \<Rightarrow> string \<Rightarrow> string" where
  "optional_prefix p s = (case strip_prefix p s of Some r \<Rightarrow> r | None \<Rightarrow> s)"

text \<open>The class \<^verbatim>\<open>[a-zA-Z0-9_-]\<close>.\<close>
definition id_char :: "char \<Rightarrow> bool" where
  "id_char c =
     (let n = (of_char c :: nat)
      in (97 \<le> n \<and> n \<le> 122) \<or> (65 \<le> n \<and> n \<le> 90) \<or> (48 \<le> n \<and> n \<le> 57) \<or>
         c = CHR ''_'' \<or> c = CHR ''-'')"

text \<open>
  \<^verbatim>\<open>url.match(/^https?:\/\/(www\.)?youtube\.com\/embed\/[a-zA-Z0-9_-]+/)\<close>, blog.js 25--27,
  as the truth value of the match. The pattern is anchored at the start only.
\<close>
definition isValidYouTubeUrl :: "string \<Rightarrow> bool" where
  "isValidYouTubeUrl url =
     (case strip_prefix ''http'' url of
        None \<Rightarrow> False
      | Some r1 \<Rightarrow>
          (case strip_prefix ''://'' (optional_prefix ''s'' r1) of
             None \<Rightarrow> False
           | Some r2 \<Rightarrow>
               (case strip_prefix ''youtube.com/embed/'' (optional_prefix ''www.'' r2) of
                  None \<Rightarrow> False
                | Some r3 \<Rightarrow> (case r3 of [] \<Rightarrow> False | c # _ \<Rightarrow> id_char c))))"

text \<open>What the rewrite rule returns: a tag name, and attributes or a text when it sets them.\<close>
record transformed =
  tagName :: string
  attribs :: "(string \<rightharpoonup> string) option"
  text_of :: "string option"

text \<open>
  The function stored under \<^verbatim>\<open>transformTags.iframe\<close>, blog.js 41--60. With no
  \<^verbatim>\<open>src\<close> among the attributes, \<^verbatim>\<open>attribs.src.match\<close> throws.
\<close>
definition iframe_rule :: "(string \<rightharpoonup> string) \<Rightarrow> js_error + transformed" where
  "iframe_rule as =
     (case as ''src'' of
        None \<Rightarrow> Inl TypeError
      | Some src \<Rightarrow>
          if \<not> isValidYouTubeUrl src
          then Inr \<lparr> tagName = ''p'', attribs = None, text_of = Some ''[Invalid video embed]'' \<rparr>
          else Inr \<lparr> tagName = ''iframe'',
                     attribs = Some (as(''width'' \<mapsto> ''100%'', ''height'' \<mapsto> ''400'',
                                        ''frameborder'' \<mapsto> ''0'',
                                        ''allow'' \<mapsto> ''accelerometer; autoplay; clipboard-write; encrypted-media; gyroscope; picture-in-picture'',
                                        ''allowfullscreen'' \<mapsto> '''')),
                     text_of = None \<rparr>)"

text \<open>The class \<^verbatim>\<open>[a-z+.\-]\<close> under the \<^verbatim>\<open>i\<close> flag, on a case-folded string.\<close>
definition scheme_char :: "char \<Rightarrow> bool" where
  "scheme_char c =
     (let n = (of_char c :: nat)
      in (97 \<le> n \<and> n \<le> 122) \<or> c = CHR ''+'' \<or> c = CHR ''.'' \<or> c = CHR ''-'')"

definition lower_letter :: "char \<Rightarrow> bool" where
  "lower_letter c = (let n = (of_char c :: nat) in 97 \<le> n \<and> n \<le> 122)"

text \<open>
  \<^verbatim>\<open>ALLOWED_URI_REGEXP\<close>, blog.js 17:
  \<^verbatim>\<open>/^(?:(?:(?:f|ht)tps?|mailto|tel|callto|cid|xmpp|xxx):|[^a-z]|[a-z+.\-]+(?:[^a-z+.\-:]|$))/i\<close>,
  as the truth value of a test against a string. The third alternative takes the longest
  run of scheme characters; no shorter run can match, since the character after it is a
  scheme character.
\<close>
definition ALLOWED_URI_REGEXP :: "string \<Rightarrow> bool" where
  "ALLOWED_URI_REGEXP v =
     (let l = ascii_fold v;
          rest = dropWhile scheme_char l
      in list_ex (\<lambda>scheme. strip_prefix (scheme @ '':'') l \<noteq> None)
           [''ftp'', ''ftps'', ''http'', ''https'', ''mailto'', ''tel'', ''callto'', ''cid'',
            ''xmpp'', ''xxx'']
         \<or> (case l of [] \<Rightarrow> False | c # _ \<Rightarrow> \<not> lower_letter c)
         \<or> (takeWhile scheme_char l \<noteq> [] \<and>
             (case rest of [] \<Rightarrow> True | c # _ \<Rightarrow> c \<noteq> CHR '':'')))"

text \<open>\<^verbatim>\<open>ALLOWED_TAGS\<close> and \<^verbatim>\<open>ADD_ATTR\<close>, blog.js 16--21.\<close>
definition ALLOWED_TAGS :: "string list" where
  "ALLOWED_TAGS =
     [''a'', ''b'', ''br'', ''div'', ''em'', ''h1'', ''h2'', ''h3'', ''h4'', ''h5'', ''h6'',
      ''i'', ''iframe'', ''img'', ''li'', ''ol'', ''p'', ''span'', ''strong'', ''ul'']"

definition ADD_ATTR :: "string list" where
  "ADD_ATTR =
     [''allow'', ''allowfullscreen'', ''frameborder'', ''scrolling'', ''src'', ''title'',
      ''width'', ''height'']"

section \<open>Example tables\<close>

text \<open>The titles of the examples are ASCII, where \<open>toLowerCase\<close> does not use its parameter.\<close>
definition demo_post :: "string \<Rightarrow> string \<Rightarrow> string \<Rightarrow> timestamp \<Rightarrow> post" where
  "demo_post i t st ts =
     \<lparr> post_id = i, title = t, slug = slugify id t, content = ''<p>text</p>'', category = ''news'',
       meta_title = None, meta_description = None, post_keywords = None, featured_image = None,
       status = Some st, author = None, created_at = ts, updated_at = ts,
       is_featured = Some False, is_trending = Some False,
       featured_order = None, trending_order = None \<rparr>"

text \<open>Three featured posts with order values 2, null and 1.\<close>
definition featured_rows :: store where
  "featured_rows =
     [ (demo_post ''a'' ''First'' ''published'' 1)\<lparr> is_featured := Some True, featured_order := Some 2 \<rparr>,
       (demo_post ''b'' ''Second'' ''published'' 2)\<lparr> is_featured := Some True, featured_order := None \<rparr>,
       (demo_post ''c'' ''Third'' ''published'' 3)\<lparr> is_featured := Some True, featured_order := Some 1 \<rparr> ]"

text \<open>A draft that is flagged featured and trending.\<close>
definition flagged_draft :: post where
  "flagged_draft =
     (demo_post ''d'' ''Secret plans'' ''draft'' 4)\<lparr> is_featured := Some True, is_trending := Some True \<rparr>"

text \<open>Two published posts, \<open>hello-world\<close> and \<open>other\<close>.\<close>
definition two_rows :: store where
  "two_rows = [demo_post ''a'' ''Hello, World!'' ''published'' 1, demo_post ''b'' ''Other'' ''published'' 2]"

definition hello_create :: create_body where
  "hello_create =
     \<lparr> cb_title = ''hello world'', cb_content = ''<p>x</p>'', cb_category = ''news'',
       cb_meta_title = None, cb_meta_description = None, cb_keywords = None,
       cb_featured_image = None, cb_status = Absent, cb_author = None,
       cb_is_featured = Absent, cb_is_trending = Absent,
       cb_featured_order = None, cb_trending_order = None \<rparr>"

definition hello_update :: update_body where
  "hello_update =
     \<lparr> ub_title = ''HELLO  WORLD'', ub_content = ''<p>y</p>'', ub_category = ''news'',
       ub_meta_title = None, ub_meta_description = None, ub_keywords = None,
       ub_featured_image = None, ub_status = Some ''published'', ub_author = None \<rparr>"

definition flags_on :: flags_body where
  "flags_on =
     \<lparr> fb_is_featured = Some True, fb_is_trending = Some True,
       fb_featured_order = Some 1, fb_trending_order = Some 1 \<rparr>"

text \<open>Bodies whose title is non-empty and made of blanks and hyphens only.\<close>
definition punct_create :: create_body where
  "punct_create = hello_create\<lparr> cb_title := ''  ---  '' \<rparr>"

definition punct_update :: update_body where
  "punct_update = hello_update\<lparr> ub_title := ''  ---  '' \<rparr>"

section \<open>Facts about the statements\<close>

lemma select_nonempty: "sql_select w rows \<noteq> [] \<longleftrightarrow> (\<exists>r\<in>set rows. w r)"
  by (simp add: sql_select_def filter_empty_conv)

lemma distinct_slug_owner:
  assumes d: "distinct (map slug rows)" and p: "p \<in> set rows" and q: "q \<in> set rows"
    and e: "slug q = slug p"
  shows "q = p"
proof -
  from d have "inj_on slug (set rows)" by (simp add: distinct_map)
  with p q e show ?thesis by (auto dest: inj_onD)
qed

lemma no_other_owner:
  assumes d: "distinct (map slug rows)" and p: "p \<in> set rows" "post_id p = pid" "slug p = s"
  shows "sql_select (\<lambda>r. slug r = s \<and> post_id r \<noteq> pid) rows = []"
  unfolding sql_select_def filter_empty_conv
proof (intro ballI notI)
  fix q assume q: "q \<in> set rows" and h: "slug q = s \<and> post_id q \<noteq> pid"
  with p have "slug q = slug p" by simp
  with d p(1) q have "q = p" by (rule distinct_slug_owner)
  with p h show False by simp
qed

lemma sql_update_no_match:
  "pid \<notin> post_id ` set rows \<Longrightarrow> sql_update (\<lambda>r. post_id r = pid) f rows = rows"
  by (induction rows) (auto simp: sql_update_def)

lemma post_id_set_order_column: "post_id (set_order_column f v r) = post_id r"
  by (simp add: set_order_column_def)

lemma set_insert_by: "set (insert_by le x xs) = insert x (set xs)"
  by (induction xs) auto

lemma mset_insert_by: "mset (insert_by le x xs) = add_mset x (mset xs)"
  by (induction xs) auto

lemma mset_order_by: "mset (order_by le xs) = mset xs"
  by (induction xs) (auto simp: order_by_def mset_insert_by)

lemma set_order_by: "set (order_by le xs) = set xs"
  by (induction xs) (auto simp: order_by_def set_insert_by)

lemma sorted_insert_by:
  assumes tot: "\<And>a b. le a b \<or> le b a"
    and tr: "\<And>a b c. le a b \<Longrightarrow> le b c \<Longrightarrow> le a c"
  shows "sorted_wrt le xs \<Longrightarrow> sorted_wrt le (insert_by le x xs)"
proof (induction xs)
  case Nil
  show ?case by simp
next
  case (Cons y ys)
  show ?case
  proof (cases "le x y")
    case True
    with Cons.prems tr show ?thesis by (auto simp: set_insert_by)
  next
    case False
    with tot have "le y x" by blast
    with Cons False show ?thesis by (auto simp: set_insert_by)
  qed
qed

lemma sorted_order_by:
  assumes tot: "\<And>a b. le a b \<or> le b a"
    and tr: "\<And>a b c. le a b \<Longrightarrow> le b c \<Longrightarrow> le a c"
  shows "sorted_wrt le (order_by le xs)"
proof (induction xs)
  case Nil
  show ?case by (simp add: order_by_def)
next
  case (Cons x xs)
  have "order_by le (x # xs) = insert_by le x (order_by le xs)"
    by (simp add: order_by_def)
  with Cons sorted_insert_by [of le, OF tot tr] show ?case by simp
qed

lemma asc_before_total: "asc_before nf a b \<or> a = b \<or> asc_before nf b a"
  by (cases a; cases b) auto

lemma asc_before_trans: "asc_before nf a b \<Longrightarrow> asc_before nf b c \<Longrightarrow> asc_before nf a c"
  by (cases a; cases b; cases c) auto

lemma by_order_total: "by_order_then_recent nf col p q \<or> by_order_then_recent nf col q p"
  using asc_before_total [of nf "col p" "col q"]
  by (auto simp: by_order_then_recent_def)

lemma by_order_trans:
  "by_order_then_recent nf col p q \<Longrightarrow> by_order_then_recent nf col q r \<Longrightarrow>
   by_order_then_recent nf col p r"
  unfolding by_order_then_recent_def
  using asc_before_trans [of nf "col p" "col q" "col r"]
  by auto

text \<open>
  The reorder loop in closed form: a row is rewritten with the order value of the last
  entry that names its id, and left alone when no entry does.
\<close>
lemma reorder_loop_closed_form:
  "reorder_loop f es rows =
     map (\<lambda>r. case map_of (rev (map (\<lambda>e. (entry_id e, entry_order e)) es)) (post_id r) of
                 None \<Rightarrow> r
               | Some v \<Rightarrow> set_order_column f v r) rows"
proof (induction es arbitrary: rows)
  case Nil
  show ?case by simp
next
  case (Cons e es)
  show ?case
    by (simp add: Cons.IH sql_update_def map_add_def set_order_column_def
             split: option.splits)
qed

section \<open>Requests through the router\<close>

lemma ascii_fold_literals:
  "ascii_fold ''posts'' = ''posts''" "ascii_fold ''featured'' = ''featured''"
  "ascii_fold ''trending'' = ''trending''" "ascii_fold ''categories'' = ''categories''"
  "ascii_fold ''secret-plans'' = ''secret-plans''"
  by code_simp+

text \<open>The router in closed form: which handler a GET path reaches.\<close>
lemma handle_get_cases:
  "handle_get nf collate passphrase hdr path rows =
     (case path of
        [a] \<Rightarrow>
          if ascii_fold a = ''posts'' then Listing (getPosts passphrase hdr rows)
          else if ascii_fold a = ''categories''
          then Names (getCategories collate passphrase hdr rows)
          else NoRoute
      | [a, b] \<Rightarrow>
          if ascii_fold a = ''posts''
          then (case getPostBySlug passphrase hdr b rows of
                  Inl e \<Rightarrow> Failed e
                | Inr p \<Rightarrow> Single p)
          else NoRoute
      | _ \<Rightarrow> NoRoute)"
proof (cases path)
  case Nil
  then show ?thesis by (simp add: handle_get_def routes_def)
next
  case (Cons a p1)
  show ?thesis
  proof (cases p1)
    case Nil
    with Cons show ?thesis by (simp add: handle_get_def routes_def)
  next
    case (Cons b p2)
    show ?thesis
    proof (cases p2)
      case Nil
      with \<open>path = a # p1\<close> \<open>p1 = b # p2\<close> show ?thesis
        by (simp add: handle_get_def routes_def)
    next
      case (Cons c p3)
      with \<open>path = a # p1\<close> \<open>p1 = b # p2\<close> show ?thesis
        by (cases p3) (simp_all add: handle_get_def routes_def)
    qed
  qed
qed

text \<open>
  The routes \<^verbatim>\<open>/posts/featured\<close> and \<^verbatim>\<open>/posts/trending\<close> come after
  \<^verbatim>\<open>/posts/:slug\<close>, which matches both paths: a GET for either is answered by the
  slug lookup, with \<open>featured\<close> or \<open>trending\<close> as the slug.
\<close>
lemma listing_paths_reach_slug_lookup:
  "handle_get nf collate passphrase hdr [''posts'', ''featured''] rows =
     (case getPostBySlug passphrase hdr ''featured'' rows of Inl e \<Rightarrow> Failed e | Inr p \<Rightarrow> Single p)"
  "handle_get nf collate passphrase hdr [''posts'', ''trending''] rows =
     (case getPostBySlug passphrase hdr ''trending'' rows of Inl e \<Rightarrow> Failed e | Inr p \<Rightarrow> Single p)"
  by (simp_all add: handle_get_cases ascii_fold_literals)

lemma getPostBySlug_absent:
  "sl \<notin> slug ` set rows \<Longrightarrow> getPostBySlug passphrase hdr sl rows = Inl NotFound"
proof -
  assume "sl \<notin> slug ` set rows"
  then have "\<not> (\<exists>r\<in>set rows. slug r = sl \<and>
      (if \<not> checkAdminPassphrase passphrase hdr then status r = Some ''published'' else True))"
    by force
  then have "sql_select (\<lambda>r. slug r = sl \<and>
      (if \<not> checkAdminPassphrase passphrase hdr then status r = Some ''published'' else True)) rows = []"
    using select_nonempty by blast
  then show ?thesis by (simp add: getPostBySlug_def)
qed

section \<open>Ordering of the featured and trending listings\<close>

text \<open>
  The two listing queries, taken by themselves: each returns the flagged rows sorted by
  its order column ascending, then by \<open>created_at\<close> descending, with the null-ordered
  rows on the side the database puts NULL.
\<close>
lemma listing_queries_sorted:
  "sorted_wrt (by_order_then_recent nf featured_order) (getFeatured nf rows)"
  "mset (getFeatured nf rows) = mset (filter (\<lambda>r. is_featured r = Some True) rows)"
  "sorted_wrt (by_order_then_recent nf trending_order) (getTrending nf rows)"
  "mset (getTrending nf rows) = mset (filter (\<lambda>r. is_trending r = Some True) rows)"
  unfolding getFeatured_def getTrending_def sql_select_def
  using sorted_order_by [of "by_order_then_recent nf featured_order", OF by_order_total by_order_trans]
        sorted_order_by [of "by_order_then_recent nf trending_order", OF by_order_total by_order_trans]
  by (simp_all add: mset_order_by)

lemma listing_query_examples:
  "map featured_order (getFeatured True featured_rows) = [None, Some 1, Some 2]"
  "map featured_order (getFeatured False featured_rows) = [Some 1, Some 2, None]"
  by code_simp+

text \<open>
  C7: the featured and trending read operations return the flagged posts sorted by their
  order value. On a table of three featured posts with order values 2, null and 1, a GET
  for \<^verbatim>\<open>/posts/featured\<close> or \<^verbatim>\<open>/posts/trending\<close> is answered, for every caller,
  with 404 \<open>Blog post not found\<close>: the request goes to the slug lookup, and no post has
  the slug \<open>featured\<close> or \<open>trending\<close>. No listing is returned in any order.
\<close>
theorem featured_listing_not_served:
  "map is_featured featured_rows = [Some True, Some True, Some True] \<and>
   map featured_order featured_rows = [Some 2, None, Some 1] \<and>
   handle_get nulls_first collate passphrase hdr [''posts'', ''featured''] featured_rows
     = Failed NotFound \<and>
   handle_get nulls_first collate passphrase hdr [''posts'', ''trending''] featured_rows
     = Failed NotFound"
proof -
  have cols: "map is_featured featured_rows = [Some True, Some True, Some True] \<and>
      map featured_order featured_rows = [Some 2, None, Some 1]"
    by code_simp
  have "''featured'' \<notin> slug ` set featured_rows" and "''trending'' \<notin> slug ` set featured_rows"
    by code_simp+
  then have "getPostBySlug passphrase hdr ''featured'' featured_rows = Inl NotFound"
    and "getPostBySlug passphrase hdr ''trending'' featured_rows = Inl NotFound"
    by (simp_all add: getPostBySlug_absent)
  with cols show ?thesis by (simp add: listing_paths_reach_slug_lookup)
qed

section \<open>Flags and manual order\<close>

text \<open>
  C9: the status handler (setFlags) makes no existence check. For an authorised caller
  and an id that no stored post has, it answers with success, not \<open>NotFound\<close>, and the
  table is unchanged.
\<close>
theorem setFlags_unknown_id:
  "checkAdminPassphrase passphrase hdr \<Longrightarrow> pid \<notin> post_id ` set rows \<Longrightarrow>
   setFlags passphrase hdr pid body rows = (Inr (), rows)"
  by (simp add: setFlags_def sql_update_no_match)

theorem setFlags_unknown_id_witness:
  "checkAdminPassphrase (Some ''pw'') (Some ''pw'') \<and>
   ''zzz'' \<notin> post_id ` set featured_rows \<and>
   setFlags (Some ''pw'') (Some ''pw'') ''zzz'' flags_on featured_rows = (Inr (), featured_rows)"
proof -
  have a: "checkAdminPassphrase (Some ''pw'') (Some ''pw'')"
    by (simp add: checkAdminPassphrase_def)
  have b: "''zzz'' \<notin> post_id ` set featured_rows"
    by code_simp
  from setFlags_unknown_id [OF a b, of flags_on] a b show ?thesis
    by simp
qed

text \<open>
  C10: the reorder handler writes to \<open>trending_order\<close> only when \<open>type\<close> is exactly
  the string \<open>trending\<close>; for every other value, a missing one included, the supplied
  order values go into \<open>featured_order\<close>. For an authorised caller and a list of
  entries, each row takes the order value of the last entry naming its id, in the column
  so chosen, and nothing else changes.
\<close>
theorem reorderPosts_column:
  "checkAdminPassphrase passphrase hdr \<Longrightarrow>
   reorderPosts passphrase hdr (Some es) ty rows =
     (Inr (),
      map (\<lambda>r. case map_of (rev (map (\<lambda>e. (entry_id e, entry_order e)) es)) (post_id r) of
                  None \<Rightarrow> r
                | Some v \<Rightarrow>
                    if ty = Some ''trending'' then r\<lparr> trending_order := v \<rparr>
                    else r\<lparr> featured_order := v \<rparr>) rows)"
  by (auto simp: reorderPosts_def reorder_loop_closed_form set_order_column_def
           split: option.splits)

theorem reorderPosts_column_witness:
  "checkAdminPassphrase (Some ''pw'') (Some ''pw'') \<and>
   map featured_order
     (snd (reorderPosts (Some ''pw'') (Some ''pw'')
        (Some [\<lparr> entry_id = ''a'', entry_order = Some 7 \<rparr>]) (Some ''Trending'') featured_rows))
     = [Some 7, None, Some 1] \<and>
   map trending_order
     (snd (reorderPosts (Some ''pw'') (Some ''pw'')
        (Some [\<lparr> entry_id = ''a'', entry_order = Some 7 \<rparr>]) (Some ''Trending'') featured_rows))
     = [None, None, None] \<and>
   map trending_order
     (snd (reorderPosts (Some ''pw'') (Some ''pw'')
        (Some [\<lparr> entry_id = ''a'', entry_order = Some 7 \<rparr>]) (Some ''trending'') featured_rows))
     = [Some 7, None, None]"
proof -
  have a: "checkAdminPassphrase (Some ''pw'') (Some ''pw'')"
    by (simp add: checkAdminPassphrase_def)
  show ?thesis
    using a
      reorderPosts_column [OF a, of "[\<lparr> entry_id = ''a'', entry_order = Some 7 \<rparr>]"
        "Some ''Trending''" featured_rows]
      reorderPosts_column [OF a, of "[\<lparr> entry_id = ''a'', entry_order = Some 7 \<rparr>]"
        "Some ''trending''" featured_rows]
    by (simp add: featured_rows_def demo_post_def)
qed

section \<open>Slug uniqueness\<close>

text \<open>On ASCII titles the slug does not depend on the built-in's Unicode mapping.\<close>
lemma slugify_ascii:
  "list_all ascii t \<Longrightarrow> slugify ul t = trim_hyphens (hyphenate (map lower_char t))"
  by (simp add: slugify_def toLowerCase_def)

lemma slugify_examples:
  "slugify ul ''Hello, World!'' = ''hello-world''"
  "slugify ul ''  ---  '' = ''''"
proof -
  have "list_all ascii ''Hello, World!''" and "list_all ascii ''  ---  ''"
    by code_simp+
  moreover have "trim_hyphens (hyphenate (map lower_char ''Hello, World!'')) = ''hello-world''"
    and "trim_hyphens (hyphenate (map lower_char ''  ---  '')) = ''''"
    by code_simp+
  ultimately show "slugify ul ''Hello, World!'' = ''hello-world''"
    and "slugify ul ''  ---  '' = ''''"
    by (simp_all only: slugify_ascii)
qed

lemma createPost_duplicate:
  assumes "checkAdminPassphrase passphrase hdr"
    and "cb_title cb \<noteq> []" "cb_content cb \<noteq> []" "cb_category cb \<noteq> []"
    and "slugify ul (cb_title cb) \<in> slug ` set rows"
  shows "createPost ul san now uuid passphrase hdr cb rows = (Inl DuplicateSlug, rows)"
proof -
  from assms(5) have "sql_select (\<lambda>r. slug r = slugify ul (cb_title cb)) rows \<noteq> []"
    unfolding select_nonempty by auto
  with assms(1-4) show ?thesis by (simp add: createPost_def Let_def)
qed

lemma updatePost_duplicate:
  assumes "checkAdminPassphrase passphrase hdr"
    and "ub_title ub \<noteq> []" "ub_content ub \<noteq> []" "ub_category ub \<noteq> []"
    and "pid \<in> post_id ` set rows"
    and "\<exists>q\<in>set rows. post_id q \<noteq> pid \<and> slug q = slugify ul (ub_title ub)"
  shows "updatePost ul san now passphrase hdr pid ub rows = (Inl DuplicateSlug, rows)"
proof -
  from assms(5) have ex: "sql_select (\<lambda>r. post_id r = pid) rows \<noteq> []"
    unfolding select_nonempty by auto
  from assms(6)
  have "sql_select (\<lambda>r. slug r = slugify ul (ub_title ub) \<and> post_id r \<noteq> pid) rows \<noteq> []"
    unfolding select_nonempty by auto
  with assms(1-4) ex show ?thesis by (simp add: updatePost_def Let_def)
qed

lemma updatePost_own_slug:
  assumes "checkAdminPassphrase passphrase hdr"
    and "ub_title ub \<noteq> []" "ub_content ub \<noteq> []" "ub_category ub \<noteq> []"
    and d: "distinct (map slug rows)"
    and p: "p \<in> set rows" "post_id p = pid" "slug p = slugify ul (ub_title ub)"
  shows "updatePost ul san now passphrase hdr pid ub rows =
     (Inr (slugify ul (ub_title ub)),
      map (\<lambda>r. if post_id r = pid
                then r\<lparr> title := ub_title ub, slug := slugify ul (ub_title ub),
                        content := san (ub_content ub), category := ub_category ub,
                        meta_title := ub_meta_title ub,
                        meta_description := ub_meta_description ub,
                        post_keywords := ub_keywords ub,
                        featured_image := ub_featured_image ub,
                        status := ub_status ub, author := ub_author ub,
                        updated_at := now \<rparr>
                else r) rows)"
proof -
  from p have ex: "sql_select (\<lambda>r. post_id r = pid) rows \<noteq> []"
    unfolding select_nonempty by auto
  from d p
  have "sql_select (\<lambda>r. slug r = slugify ul (ub_title ub) \<and> post_id r \<noteq> pid) rows = []"
    by (rule no_other_owner)
  with assms(1-4) ex show ?thesis by (simp add: updatePost_def Let_def sql_update_def)
qed

text \<open>
  C5: slug uniqueness is enforced by the workflow. For an authorised caller and a body
  with its three required fields: create fails with \<open>DuplicateSlug\<close>, leaving the table
  as it was, whenever a stored post already has the slug of the new title; update of an
  existing post fails with \<open>DuplicateSlug\<close>, leaving the table as it was, whenever a post
  with a different id has the slug recomputed from the new title; and when the recomputed
  slug is the slug the updated post already has, in a table whose slugs are unique, update
  succeeds: it answers with that slug and rewrites the post's row with the fields of the
  body, the slug and the current time, every other row staying as it was.
\<close>
theorem slug_uniqueness_enforced:
  assumes adm: "checkAdminPassphrase passphrase hdr"
  shows
   "(cb_title cb \<noteq> [] \<and> cb_content cb \<noteq> [] \<and> cb_category cb \<noteq> [] \<and>
      slugify ul (cb_title cb) \<in> slug ` set rows \<longrightarrow>
      createPost ul san now uuid passphrase hdr cb rows = (Inl DuplicateSlug, rows)) \<and>
    (ub_title ub \<noteq> [] \<and> ub_content ub \<noteq> [] \<and> ub_category ub \<noteq> [] \<and>
      pid \<in> post_id ` set rows \<and>
      (\<exists>q\<in>set rows. post_id q \<noteq> pid \<and> slug q = slugify ul (ub_title ub)) \<longrightarrow>
      updatePost ul san now passphrase hdr pid ub rows = (Inl DuplicateSlug, rows)) \<and>
    (ub_title ub \<noteq> [] \<and> ub_content ub \<noteq> [] \<and> ub_category ub \<noteq> [] \<and>
      distinct (map slug rows) \<and>
      (\<exists>p\<in>set rows. post_id p = pid \<and> slug p = slugify ul (ub_title ub)) \<longrightarrow>
      updatePost ul san now passphrase hdr pid ub rows =
        (Inr (slugify ul (ub_title ub)),
         map (\<lambda>r. if post_id r = pid
                   then r\<lparr> title := ub_title ub, slug := slugify ul (ub_title ub),
                           content := san (ub_content ub), category := ub_category ub,
                           meta_title := ub_meta_title ub,
                           meta_description := ub_meta_description ub,
                           post_keywords := ub_keywords ub,
                           featured_image := ub_featured_image ub,
                           status := ub_status ub, author := ub_author ub,
                           updated_at := now \<rparr>
                   else r) rows))"
proof (intro conjI impI)
  assume "cb_title cb \<noteq> [] \<and> cb_content cb \<noteq> [] \<and> cb_category cb \<noteq> [] \<and>
      slugify ul (cb_title cb) \<in> slug ` set rows"
  with adm show "createPost ul san now uuid passphrase hdr cb rows = (Inl DuplicateSlug, rows)"
    by (simp add: createPost_duplicate)
next
  assume "ub_title ub \<noteq> [] \<and> ub_content ub \<noteq> [] \<and> ub_category ub \<noteq> [] \<and>
      pid \<in> post_id ` set rows \<and>
      (\<exists>q\<in>set rows. post_id q \<noteq> pid \<and> slug q = slugify ul (ub_title ub))"
  with adm show "updatePost ul san now passphrase hdr pid ub rows = (Inl DuplicateSlug, rows)"
    by (simp add: updatePost_duplicate)
next
  assume h: "ub_title ub \<noteq> [] \<and> ub_content ub \<noteq> [] \<and> ub_category ub \<noteq> [] \<and>
      distinct (map slug rows) \<and>
      (\<exists>p\<in>set rows. post_id p = pid \<and> slug p = slugify ul (ub_title ub))"
  then obtain p where "p \<in> set rows" "post_id p = pid" "slug p = slugify ul (ub_title ub)"
    by blast
  with adm h show "updatePost ul san now passphrase hdr pid ub rows =
        (Inr (slugify ul (ub_title ub)),
         map (\<lambda>r. if post_id r = pid
                   then r\<lparr> title := ub_title ub, slug := slugify ul (ub_title ub),
                           content := san (ub_content ub), category := ub_category ub,
                           meta_title := ub_meta_title ub,
                           meta_description := ub_meta_description ub,
                           post_keywords := ub_keywords ub,
                           featured_image := ub_featured_image ub,
                           status := ub_status ub, author := ub_author ub,
                           updated_at := now \<rparr>
                   else r) rows)"
    using updatePost_own_slug [where passphrase = passphrase and hdr = hdr and ub = ub
        and rows = rows and p = p and pid = pid and ul = ul and san = san and now = now]
    by blast
qed

theorem slug_uniqueness_enforced_witness:
  "checkAdminPassphrase (Some ''pw'') (Some ''pw'') \<and>
   slugify id (cb_title hello_create) \<in> slug ` set two_rows \<and>
   createPost id id 10 ''u1'' (Some ''pw'') (Some ''pw'') hello_create two_rows
     = (Inl DuplicateSlug, two_rows) \<and>
   updatePost id id 10 (Some ''pw'') (Some ''pw'') ''b'' hello_update two_rows
     = (Inl DuplicateSlug, two_rows) \<and>
   fst (updatePost id id 10 (Some ''pw'') (Some ''pw'') ''a'' hello_update two_rows)
     = Inr ''hello-world'' \<and>
   map title (snd (updatePost id id 10 (Some ''pw'') (Some ''pw'') ''a'' hello_update two_rows))
     = [''HELLO  WORLD'', ''Other''] \<and>
   map slug (snd (updatePost id id 10 (Some ''pw'') (Some ''pw'') ''a'' hello_update two_rows))
     = [''hello-world'', ''other''] \<and>
   map updated_at (snd (updatePost id id 10 (Some ''pw'') (Some ''pw'') ''a'' hello_update two_rows))
     = [10, 2]"
proof -
  have a: "checkAdminPassphrase (Some ''pw'') (Some ''pw'')"
    by (simp add: checkAdminPassphrase_def)
  have c: "cb_title hello_create \<noteq> [] \<and> cb_content hello_create \<noteq> [] \<and>
      cb_category hello_create \<noteq> [] \<and> slugify id (cb_title hello_create) \<in> slug ` set two_rows"
    by code_simp
  have u: "ub_title hello_update \<noteq> [] \<and> ub_content hello_update \<noteq> [] \<and>
      ub_category hello_update \<noteq> [] \<and> ''b'' \<in> post_id ` set two_rows \<and>
      (\<exists>q\<in>set two_rows. post_id q \<noteq> ''b'' \<and> slug q = slugify id (ub_title hello_update))"
    by code_simp
  have v: "ub_title hello_update \<noteq> [] \<and> ub_content hello_update \<noteq> [] \<and>
      ub_category hello_update \<noteq> [] \<and> distinct (map slug two_rows) \<and>
      (\<exists>p\<in>set two_rows. post_id p = ''a'' \<and> slug p = slugify id (ub_title hello_update))"
    by code_simp
  from slug_uniqueness_enforced
         [OF a, where cb = hello_create and rows = two_rows and ub = hello_update
            and pid = "''b''" and ul = id and san = id and now = 10 and uuid = "''u1''"] c u
  have 1: "createPost id id 10 ''u1'' (Some ''pw'') (Some ''pw'') hello_create two_rows
       = (Inl DuplicateSlug, two_rows)"
    and 2: "updatePost id id 10 (Some ''pw'') (Some ''pw'') ''b'' hello_update two_rows
       = (Inl DuplicateSlug, two_rows)"
    by blast+
  from slug_uniqueness_enforced
         [OF a, where rows = two_rows and ub = hello_update and pid = "''a''"
            and ul = id and san = id and now = 10] v
  have 3: "fst (updatePost id id 10 (Some ''pw'') (Some ''pw'') ''a'' hello_update two_rows)
       = Inr (slugify id (ub_title hello_update))"
    by simp
  have 4: "slugify id (ub_title hello_update) = ''hello-world''"
    by code_simp
  have 5: "map title (snd (updatePost id id 10 (Some ''pw'') (Some ''pw'') ''a'' hello_update two_rows))
       = [''HELLO  WORLD'', ''Other''] \<and>
     map slug (snd (updatePost id id 10 (Some ''pw'') (Some ''pw'') ''a'' hello_update two_rows))
       = [''hello-world'', ''other''] \<and>
     map updated_at (snd (updatePost id id 10 (Some ''pw'') (Some ''pw'') ''a'' hello_update two_rows))
       = [10, 2]"
    by code_simp
  from 3 4 have "fst (updatePost id id 10 (Some ''pw'') (Some ''pw'') ''a'' hello_update two_rows)
       = Inr ''hello-world''"
    by simp
  with a c 1 2 5 show ?thesis by blast
qed

text \<open>
  Both writes keep the slugs of the table pairwise different (for update, in a table
  where the ids are pairwise different too).
\<close>
lemma createPost_keeps_slugs_distinct:
  assumes "distinct (map slug rows)"
  shows "distinct (map slug (snd (createPost ul san now uuid passphrase hdr cb rows)))"
proof (cases "sql_select (\<lambda>r. slug r = slugify ul (cb_title cb)) rows = []")
  case True
  then have "slugify ul (cb_title cb) \<notin> slug ` set rows"
    using select_nonempty [of "\<lambda>r. slug r = slugify ul (cb_title cb)" rows] by auto
  with assms True show ?thesis by (simp add: createPost_def Let_def sql_insert_def)
next
  case False
  with assms show ?thesis by (simp add: createPost_def Let_def)
qed

lemma distinct_renamed_slugs:
  "distinct (map post_id rows) \<Longrightarrow> distinct (map slug rows) \<Longrightarrow>
   (\<forall>r\<in>set rows. post_id r \<noteq> pid \<longrightarrow> slug r \<noteq> sl) \<Longrightarrow>
   distinct (map (\<lambda>r. if post_id r = pid then sl else slug r) rows)"
proof (induction rows)
  case Nil
  show ?case by simp
next
  case (Cons r rs)
  then have "distinct (map (\<lambda>r. if post_id r = pid then sl else slug r) rs)" by simp
  moreover have "(if post_id r = pid then sl else slug r)
      \<notin> (\<lambda>r. if post_id r = pid then sl else slug r) ` set rs"
    using Cons.prems by (auto simp: image_iff)
  ultimately show ?case by simp
qed

lemma updatePost_keeps_slugs_distinct:
  assumes "distinct (map post_id rows)" and "distinct (map slug rows)"
  shows "distinct (map slug (snd (updatePost ul san now passphrase hdr pid ub rows)))"
proof (cases "fst (updatePost ul san now passphrase hdr pid ub rows)")
  case (Inl e)
  then have "snd (updatePost ul san now passphrase hdr pid ub rows) = rows"
    by (auto simp: updatePost_def Let_def split: if_splits)
  with assms show ?thesis by simp
next
  case (Inr s)
  then have none: "sql_select (\<lambda>r. slug r = slugify ul (ub_title ub) \<and> post_id r \<noteq> pid) rows = []"
    and st: "snd (updatePost ul san now passphrase hdr pid ub rows)
       = sql_update (\<lambda>r. post_id r = pid)
           (\<lambda>r. r\<lparr> title := ub_title ub, slug := slugify ul (ub_title ub),
                   content := san (ub_content ub), category := ub_category ub,
                   meta_title := ub_meta_title ub, meta_description := ub_meta_description ub,
                   post_keywords := ub_keywords ub, featured_image := ub_featured_image ub,
                   status := ub_status ub, author := ub_author ub, updated_at := now \<rparr>) rows"
    by (auto simp: updatePost_def Let_def split: if_splits)
  from none have "\<forall>r\<in>set rows. post_id r \<noteq> pid \<longrightarrow> slug r \<noteq> slugify ul (ub_title ub)"
    using select_nonempty [of "\<lambda>r. slug r = slugify ul (ub_title ub) \<and> post_id r \<noteq> pid" rows]
    by auto
  with assms
  have "distinct (map (\<lambda>r. if post_id r = pid then slugify ul (ub_title ub) else slug r) rows)"
    by (rule distinct_renamed_slugs)
  moreover have "map slug (snd (updatePost ul san now passphrase hdr pid ub rows))
      = map (\<lambda>r. if post_id r = pid then slugify ul (ub_title ub) else slug r) rows"
    unfolding st by (simp add: sql_update_def)
  ultimately show ?thesis by simp
qed

section \<open>Titles whose slug is empty\<close>

lemma createPost_empty_slug:
  assumes adm: "checkAdminPassphrase passphrase hdr"
    and f: "cb_title cb \<noteq> []" "cb_content cb \<noteq> []" "cb_category cb \<noteq> []"
    and e: "slugify ul (cb_title cb) = []"
  shows "createPost ul san now uuid passphrase hdr cb rows =
     (if [] \<in> slug ` set rows then (Inl DuplicateSlug, rows)
      else (Inr (uuid, []),
            rows @
            [\<lparr> post_id = uuid, title = cb_title cb, slug = [],
               content = san (cb_content cb), category = cb_category cb,
               meta_title = cb_meta_title cb, meta_description = cb_meta_description cb,
               post_keywords = cb_keywords cb, featured_image = cb_featured_image cb,
               status = with_default ''draft'' (cb_status cb), author = cb_author cb,
               created_at = now, updated_at = now,
               is_featured = with_default False (cb_is_featured cb),
               is_trending = with_default False (cb_is_trending cb),
               featured_order = cb_featured_order cb,
               trending_order = cb_trending_order cb \<rparr>]))"
proof (cases "[] \<in> slug ` set rows")
  case True
  then obtain r where "r \<in> set rows" "slug r = []" by force
  then have "sql_select (\<lambda>r. slug r = []) rows \<noteq> []"
    unfolding select_nonempty by blast
  with adm f e True show ?thesis by (simp add: createPost_def Let_def)
next
  case False
  then have "\<not> (\<exists>r\<in>set rows. slug r = [])" by force
  then have "sql_select (\<lambda>r. slug r = []) rows = []"
    using select_nonempty [of "\<lambda>r. slug r = []" rows] by blast
  with adm f e False show ?thesis by (simp add: createPost_def Let_def sql_insert_def)
qed

lemma updatePost_empty_slug:
  assumes adm: "checkAdminPassphrase passphrase hdr"
    and f: "ub_title ub \<noteq> []" "ub_content ub \<noteq> []" "ub_category ub \<noteq> []"
    and e: "slugify ul (ub_title ub) = []"
    and x: "pid \<in> post_id ` set rows"
  shows "updatePost ul san now passphrase hdr pid ub rows =
     (if \<exists>q\<in>set rows. post_id q \<noteq> pid \<and> slug q = [] then (Inl DuplicateSlug, rows)
      else (Inr [],
            map (\<lambda>r. if post_id r = pid
                      then r\<lparr> title := ub_title ub, slug := [],
                              content := san (ub_content ub), category := ub_category ub,
                              meta_title := ub_meta_title ub,
                              meta_description := ub_meta_description ub,
                              post_keywords := ub_keywords ub,
                              featured_image := ub_featured_image ub,
                              status := ub_status ub, author := ub_author ub,
                              updated_at := now \<rparr>
                      else r) rows))"
proof -
  from x have ex: "sql_select (\<lambda>r. post_id r = pid) rows \<noteq> []"
    unfolding select_nonempty by auto
  show ?thesis
  proof (cases "\<exists>q\<in>set rows. post_id q \<noteq> pid \<and> slug q = []")
    case True
    then have "sql_select (\<lambda>r. slug r = [] \<and> post_id r \<noteq> pid) rows \<noteq> []"
      unfolding select_nonempty by auto
    with adm f e ex True show ?thesis by (simp add: updatePost_def Let_def)
  next
    case False
    then have "sql_select (\<lambda>r. slug r = [] \<and> post_id r \<noteq> pid) rows = []"
      using select_nonempty [of "\<lambda>r. slug r = [] \<and> post_id r \<noteq> pid" rows] by auto
    with adm f e ex False show ?thesis
      by (simp add: updatePost_def Let_def sql_update_def)
  qed
qed

text \<open>
  C6, as the spec states it: a create or update whose non-empty title has an empty slug
  fails with a \<open>ValidationError\<close> and leaves the table unchanged. The handlers test the
  title, not the slug: with the title \<open>"  ---  "\<close> create answers with the new id and
  the slug \<open>""\<close> and inserts the row, and update rewrites the row to the slug \<open>""\<close>.
\<close>
theorem empty_slug_counterexample:
  "cb_title punct_create = ''  ---  '' \<and> ub_title punct_update = ''  ---  '' \<and>
   slugify id ''  ---  '' = [] \<and>
   fst (createPost id id 10 ''u1'' (Some ''pw'') (Some ''pw'') punct_create two_rows)
     = Inr (''u1'', []) \<and>
   map slug (snd (createPost id id 10 ''u1'' (Some ''pw'') (Some ''pw'') punct_create two_rows))
     = [''hello-world'', ''other'', []] \<and>
   fst (updatePost id id 10 (Some ''pw'') (Some ''pw'') ''a'' punct_update two_rows) = Inr [] \<and>
   map slug (snd (updatePost id id 10 (Some ''pw'') (Some ''pw'') ''a'' punct_update two_rows))
     = [[], ''other'']"
  by code_simp

text \<open>
  C6, amended: for an authorised caller and a body with its three required fields, a
  title whose slug is empty is handled as any other title. Create fails with
  \<open>DuplicateSlug\<close> when a stored post has the empty slug, and otherwise appends the new
  row with the slug \<open>""\<close>, answering with the new id and that slug. Update of an
  existing post fails with \<open>DuplicateSlug\<close> when another post has the empty slug, and
  otherwise rewrites the post's row with the slug \<open>""\<close>, answering with that slug.
\<close>
theorem empty_slug_persisted:
  assumes adm: "checkAdminPassphrase passphrase hdr"
  shows
   "(cb_title cb \<noteq> [] \<and> cb_content cb \<noteq> [] \<and> cb_category cb \<noteq> [] \<and>
       slugify ul (cb_title cb) = [] \<longrightarrow>
       createPost ul san now uuid passphrase hdr cb rows =
         (if [] \<in> slug ` set rows then (Inl DuplicateSlug, rows)
          else (Inr (uuid, []),
                rows @
                [\<lparr> post_id = uuid, title = cb_title cb, slug = [],
                   content = san (cb_content cb), category = cb_category cb,
                   meta_title = cb_meta_title cb, meta_description = cb_meta_description cb,
                   post_keywords = cb_keywords cb, featured_image = cb_featured_image cb,
                   status = with_default ''draft'' (cb_status cb), author = cb_author cb,
                   created_at = now, updated_at = now,
                   is_featured = with_default False (cb_is_featured cb),
                   is_trending = with_default False (cb_is_trending cb),
                   featured_order = cb_featured_order cb,
                   trending_order = cb_trending_order cb \<rparr>]))) \<and>
    (ub_title ub \<noteq> [] \<and> ub_content ub \<noteq> [] \<and> ub_category ub \<noteq> [] \<and>
       slugify ul (ub_title ub) = [] \<and> pid \<in> post_id ` set rows \<longrightarrow>
       updatePost ul san now passphrase hdr pid ub rows =
         (if \<exists>q\<in>set rows. post_id q \<noteq> pid \<and> slug q = [] then (Inl DuplicateSlug, rows)
          else (Inr [],
                map (\<lambda>r. if post_id r = pid
                          then r\<lparr> title := ub_title ub, slug := [],
                                  content := san (ub_content ub), category := ub_category ub,
                                  meta_title := ub_meta_title ub,
                                  meta_description := ub_meta_description ub,
                                  post_keywords := ub_keywords ub,
                                  featured_image := ub_featured_image ub,
                                  status := ub_status ub, author := ub_author ub,
                                  updated_at := now \<rparr>
                          else r) rows)))"
  using adm
    createPost_empty_slug [where passphrase = passphrase and hdr = hdr and cb = cb and ul = ul
      and rows = rows and san = san and now = now and uuid = uuid]
    updatePost_empty_slug [where passphrase = passphrase and hdr = hdr and ub = ub and ul = ul
      and pid = pid and rows = rows and san = san and now = now]
  by blast

theorem empty_slug_persisted_witness:
  "checkAdminPassphrase (Some ''pw'') (Some ''pw'') \<and>
   cb_title punct_create \<noteq> [] \<and> slugify id (cb_title punct_create) = [] \<and>
   [] \<notin> slug ` set two_rows \<and>
   fst (createPost id id 10 ''u1'' (Some ''pw'') (Some ''pw'') punct_create two_rows)
     = Inr (''u1'', []) \<and>
   ub_title punct_update \<noteq> [] \<and> slugify id (ub_title punct_update) = [] \<and>
   fst (updatePost id id 10 (Some ''pw'') (Some ''pw'') ''a'' punct_update two_rows) = Inr []"
proof -
  have a: "checkAdminPassphrase (Some ''pw'') (Some ''pw'')"
    by (simp add: checkAdminPassphrase_def)
  have c: "cb_title punct_create \<noteq> [] \<and> cb_content punct_create \<noteq> [] \<and>
      cb_category punct_create \<noteq> [] \<and> slugify id (cb_title punct_create) = []"
    by code_simp
  have n: "[] \<notin> slug ` set two_rows"
    by code_simp
  have u: "ub_title punct_update \<noteq> [] \<and> ub_content punct_update \<noteq> [] \<and>
      ub_category punct_update \<noteq> [] \<and> slugify id (ub_title punct_update) = [] \<and>
      ''a'' \<in> post_id ` set two_rows"
    by code_simp
  have m: "\<not> (\<exists>q\<in>set two_rows. post_id q \<noteq> ''a'' \<and> slug q = [])"
    by code_simp
  note t = empty_slug_persisted
         [OF a, where cb = punct_create and rows = two_rows and ub = punct_update
            and pid = "''a''" and ul = id and san = id and now = 10 and uuid = "''u1''"]
  from t c n
  have 1: "fst (createPost id id 10 ''u1'' (Some ''pw'') (Some ''pw'') punct_create two_rows)
       = Inr (''u1'', [])"
    by simp
  from t u m
  have 2: "fst (updatePost id id 10 (Some ''pw'') (Some ''pw'') ''a'' punct_update two_rows) = Inr []"
    by simp
  from a c n u 1 2 show ?thesis by blast
qed

section \<open>Who sees drafts\<close>

text \<open>
  For a caller whom \<open>checkAdminPassphrase\<close> rejects, the post listing, the slug lookup
  and the category listing return published posts only, and so does every GET request
  through the router.
\<close>
lemma getPosts_unauthenticated:
  "\<not> checkAdminPassphrase passphrase hdr \<Longrightarrow> p \<in> set (getPosts passphrase hdr rows) \<Longrightarrow>
   status p = Some ''published''"
  by (simp add: getPosts_def set_order_by sql_select_def)

lemma getPostBySlug_unauthenticated:
  assumes "\<not> checkAdminPassphrase passphrase hdr" and "getPostBySlug passphrase hdr sl rows = Inr p"
  shows "status p = Some ''published''"
proof -
  let ?hits = "sql_select (\<lambda>r. slug r = sl \<and> status r = Some ''published'') rows"
  from assms obtain ps where "?hits = p # ps"
    by (auto simp: getPostBySlug_def split: list.splits)
  then have "p \<in> set ?hits" by simp
  then show ?thesis by (simp add: sql_select_def)
qed

lemma getCategories_unauthenticated:
  "\<not> checkAdminPassphrase passphrase hdr \<Longrightarrow> c \<in> set (getCategories collate passphrase hdr rows) \<Longrightarrow>
   \<exists>p\<in>set rows. category p = c \<and> status p = Some ''published''"
  by (auto simp: getCategories_def set_order_by sql_select_def)

lemma rejected_caller_sees_published_only:
  assumes rej: "\<not> checkAdminPassphrase passphrase hdr"
    and p: "p \<in> set (shown (handle_get nf collate passphrase hdr path rows))"
  shows "status p = Some ''published''"
proof -
  from p consider
      (posts) "p \<in> set (getPosts passphrase hdr rows)"
    | (slug) sl where "getPostBySlug passphrase hdr sl rows = Inr p"
    unfolding handle_get_cases
    by (auto split: list.splits if_splits sum.splits)
  then show ?thesis
  proof cases
    case posts
    with rej show ?thesis by (rule getPosts_unauthenticated)
  next
    case slug
    with rej show ?thesis by (rule getPostBySlug_unauthenticated)
  qed
qed

lemma rejected_caller_sees_published_categories:
  assumes rej: "\<not> checkAdminPassphrase passphrase hdr"
    and c: "handle_get nf collate passphrase hdr path rows = Names cs" "c \<in> set cs"
  shows "\<exists>p\<in>set rows. category p = c \<and> status p = Some ''published''"
proof -
  from c(1) have "cs = getCategories collate passphrase hdr rows"
    unfolding handle_get_cases
    by (auto split: list.splits if_splits sum.splits)
  with rej c(2) show ?thesis by (simp add: getCategories_unauthenticated)
qed

text \<open>
  C1: unauthenticated readers never observe drafts, on any read path. The caller is told
  from an administrator by \<^verbatim>\<open>req.headers['admin-access'] === process.env.ADMIN_PASSPHRASE\<close>
  alone. When the passphrase is not configured, a request that carries no such header
  compares undefined with undefined and passes: on a table holding one draft, its GET
  for the post listing, for the draft's slug and for the categories each show the draft.
\<close>
theorem drafts_shown_without_passphrase:
  "checkAdminPassphrase None None \<and> status flagged_draft = Some ''draft'' \<and>
   handle_get nulls_first collate None None [''posts''] [flagged_draft]
     = Listing [flagged_draft] \<and>
   handle_get nulls_first collate None None [''posts'', ''secret-plans''] [flagged_draft]
     = Single flagged_draft \<and>
   handle_get nulls_first collate None None [''categories''] [flagged_draft]
     = Names [''news'']"
proof -
  have a: "checkAdminPassphrase None None"
    by (simp add: checkAdminPassphrase_def)
  have d: "status flagged_draft = Some ''draft'' \<and> slug flagged_draft = ''secret-plans'' \<and>
      category flagged_draft = ''news''"
    by code_simp
  from a have 1: "getPosts None None [flagged_draft] = [flagged_draft]"
    by (simp add: getPosts_def order_by_def)
  from a d have 2: "getPostBySlug None None ''secret-plans'' [flagged_draft] = Inr flagged_draft"
    by (simp add: getPostBySlug_def sql_select_def)
  from a d have 3: "getCategories collate None None [flagged_draft] = [''news'']"
    by (simp add: getCategories_def order_by_def)
  from a d 1 2 3 show ?thesis
    by (simp add: handle_get_cases ascii_fold_literals)
qed

section \<open>Timestamps\<close>

text \<open>
  No statement after the insert writes \<open>created_at\<close>. The update handler sets
  \<open>updated_at\<close> of the post to the current time; the statements of the status and
  reorder handlers do not list the column.
\<close>
lemma created_at_updatePost:
  "map created_at (snd (updatePost ul san now passphrase hdr pid ub rows)) = map created_at rows"
  by (simp add: updatePost_def Let_def sql_update_def)

lemma created_at_setFlags:
  "map created_at (snd (setFlags passphrase hdr pid body rows)) = map created_at rows"
  by (simp add: setFlags_def sql_update_def)

lemma created_at_reorderPosts:
  "map created_at (snd (reorderPosts passphrase hdr posts ty rows)) = map created_at rows"
  by (auto simp: reorderPosts_def reorder_loop_closed_form set_order_column_def Let_def
           split: option.splits)

lemma updated_at_updatePost:
  "fst (updatePost ul san now passphrase hdr pid ub rows) = Inr s \<Longrightarrow>
   map updated_at (snd (updatePost ul san now passphrase hdr pid ub rows))
     = map (\<lambda>r. if post_id r = pid then now else updated_at r) rows"
  by (auto simp: updatePost_def Let_def sql_update_def split: if_splits)

lemma updated_at_setFlags:
  "map updated_at (snd (setFlags passphrase hdr pid body rows)) = map updated_at rows"
  by (simp add: setFlags_def sql_update_def)

lemma updated_at_reorderPosts:
  "map updated_at (snd (reorderPosts passphrase hdr posts ty rows)) = map updated_at rows"
  by (auto simp: reorderPosts_def reorder_loop_closed_form set_order_column_def Let_def
           split: option.splits)

text \<open>
  C8: \<open>updatedAt\<close> is refreshed on every mutation, setFlags and reorder included.
  On two posts last updated at times 1 and 2, setFlags turns the flags of the first on
  and reorder gives it the order 7, and after each the \<open>updated_at\<close> column still
  reads 1 and 2.
\<close>
theorem flag_writes_keep_updated_at:
  "map is_featured (snd (setFlags (Some ''pw'') (Some ''pw'') ''a'' flags_on two_rows))
      = [Some True, Some False] \<and>
   map updated_at (snd (setFlags (Some ''pw'') (Some ''pw'') ''a'' flags_on two_rows)) = [1, 2] \<and>
   map featured_order (snd (reorderPosts (Some ''pw'') (Some ''pw'')
        (Some [\<lparr> entry_id = ''a'', entry_order = Some 7 \<rparr>]) (Some ''featured'') two_rows))
      = [Some 7, None] \<and>
   map updated_at (snd (reorderPosts (Some ''pw'') (Some ''pw'')
        (Some [\<lparr> entry_id = ''a'', entry_order = Some 7 \<rparr>]) (Some ''featured'') two_rows)) = [1, 2] \<and>
   map updated_at two_rows = [1, 2]"
  by code_simp

section \<open>The embed rule and the URI pattern\<close>

text \<open>
  The rule stored under \<^verbatim>\<open>transformTags\<close>, taken by itself: for a \<^verbatim>\<open>src\<close> the
  validator accepts it keeps the tag and every attribute but the five it overwrites, and
  for one the validator rejects it returns the placeholder paragraph.
\<close>
lemma iframe_rule_accepted:
  assumes "as ''src'' = Some src" and "isValidYouTubeUrl src"
  shows "\<exists>as'. iframe_rule as = Inr \<lparr> tagName = ''iframe'', attribs = Some as', text_of = None \<rparr> \<and>
           as' ''src'' = Some src \<and> as' ''width'' = Some ''100%'' \<and> as' ''height'' = Some ''400'' \<and>
           as' ''frameborder'' = Some ''0'' \<and>
           as' ''allow'' = Some ''accelerometer; autoplay; clipboard-write; encrypted-media; gyroscope; picture-in-picture'' \<and>
           as' ''allowfullscreen'' = Some ''''"
  using assms by (simp add: iframe_rule_def)

lemma iframe_rule_rejected:
  assumes "as ''src'' = Some src" and "\<not> isValidYouTubeUrl src"
  shows "iframe_rule as = Inr \<lparr> tagName = ''p'', attribs = None, text_of = Some ''[Invalid video embed]'' \<rparr>"
  using assms by (simp add: iframe_rule_def)

lemma iframe_rule_without_src: "iframe_rule Map.empty = Inl TypeError"
  by (simp add: iframe_rule_def)

lemma isValidYouTubeUrl_examples:
  "isValidYouTubeUrl ''https://youtube.com/embed/abc123''"
  "isValidYouTubeUrl ''http://www.youtube.com/embed/a''"
  "\<not> isValidYouTubeUrl ''https://evil.com/x''"
  "\<not> isValidYouTubeUrl ''https://youtube.com/embed/''"
  "\<not> isValidYouTubeUrl ''https://youtube.com.evil.com/embed/x''"
  by code_simp+

lemma ALLOWED_URI_REGEXP_examples:
  "\<not> ALLOWED_URI_REGEXP ''javascript:alert(1)''"
  "\<not> ALLOWED_URI_REGEXP ''JaVaScRiPt:alert(1)''"
  "\<not> ALLOWED_URI_REGEXP ''vbscript:x''"
  "\<not> ALLOWED_URI_REGEXP ''data:text/html,x''"
  "ALLOWED_URI_REGEXP ''https://example.org/a''"
  "ALLOWED_URI_REGEXP ''ftp://example.org/a''"
  "ALLOWED_URI_REGEXP ''/relative/path''"
  by code_simp+

lemma ALLOWED_lists:
  "''script'' \<notin> set ALLOWED_TAGS" "''iframe'' \<in> set ALLOWED_TAGS" "''onerror'' \<notin> set ADD_ATTR"
  by code_simp+

text \<open>
  An iframe with the source \<^verbatim>\<open>https://evil.com/x\<close> against the repository's own
  configuration: the tag and the attribute are allowed and the source passes the URI
  pattern, the validator rejects the source, and the rule would return the placeholder.
  Whether the rule runs is decided inside \<^verbatim>\<open>DOMPurify.sanitize\<close>, which receives it
  under the key \<^verbatim>\<open>transformTags\<close>.
\<close>
lemma untrusted_iframe_against_configuration:
  "''iframe'' \<in> set ALLOWED_TAGS \<and> ''src'' \<in> set ADD_ATTR \<and>
   ALLOWED_URI_REGEXP ''https://evil.com/x'' \<and>
   \<not> isValidYouTubeUrl ''https://evil.com/x'' \<and>
   iframe_rule [''src'' \<mapsto> ''https://evil.com/x'']
     = Inr \<lparr> tagName = ''p'', attribs = None, text_of = Some ''[Invalid video embed]'' \<rparr>"
proof -
  have 1: "''iframe'' \<in> set ALLOWED_TAGS \<and> ''src'' \<in> set ADD_ATTR \<and>
      ALLOWED_URI_REGEXP ''https://evil.com/x''"
    by code_simp
  have 2: "\<not> isValidYouTubeUrl ''https://evil.com/x''"
    by code_simp
  have "iframe_rule [''src'' \<mapsto> ''https://evil.com/x'']
      = Inr \<lparr> tagName = ''p'', attribs = None, text_of = Some ''[Invalid video embed]'' \<rparr>"
    using 2 by (simp add: iframe_rule_rejected)
  with 1 2 show ?thesis by blast
qed


end
